theory Spec2Isabelle
  imports Main "HOL-Library.Multiset"
begin

section \<open>The channel service of asio/detail/channel\_service.hpp\<close>

text \<open>
  The header defines the state of a channel (\<open>base_implementation_type\<close> and
  \<open>implementation_type<T>\<close>), the two matching algorithms \<open>do_put\<close> and \<open>do_get\<close>,
  and their entry points \<open>async_put\<close> and \<open>async_get\<close>. The member functions
  \<open>construct\<close>, \<open>destroy\<close>, \<open>close\<close> and \<open>cancel\<close> are only declared there; their
  bodies live in \<open>asio/detail/impl/channel_service.ipp\<close>.

  All calls on one channel are serialised (section 5 of the specification), so a call is a
  function from the state before it to the state after it. The state is the pair of
  the calls made so far on \<open>io_service_\<close>, oldest first, and the channel implementation.
\<close>

subsection \<open>Operations and the executor\<close>

datatype error = broken_pipe | operation_aborted

text \<open>
  Modelled from the spec: \<open>channel_op<T>\<close> (asio/detail/channel\_op.hpp), the completion
  operation of section 3: an error that is set when the operation fails, a value slot
  (filled by the caller of a put, empty in a get until the engine fills it) and the
  continuation hint. \<open>op_handler\<close> is the completion handler the operation wraps; it is what
  tells one operation from another.
\<close>

record ('a, 'h) channel_op =
  op_ec :: "error option"
  op_value :: "'a option"
  op_handler :: 'h
  op_is_continuation :: bool

text \<open>
  \<open>get_value\<close> reads the slot of an operation that has a value: every putter has one
  from its construction in \<open>async_put\<close>, and \<open>get_value\<close> is only ever called on a
  putter. A C++ move leaves the slot it reads in a valid but unspecified state; here the
  value stays where it was.
\<close>

definition get_value :: "('a, 'h) channel_op \<Rightarrow> 'a" where
  "get_value op = the (op_value op)"

definition set_value :: "('a, 'h) channel_op \<Rightarrow> 'a \<Rightarrow> ('a, 'h) channel_op" where
  "set_value op v = op\<lparr>op_value := Some v\<rparr>"

text \<open>
  The three members of \<open>io_service_\<close> that the channel calls. The executor is outside
  the channel; what is recorded is each call and its arguments.
\<close>

datatype ('a, 'h) completion =
    post_immediate_completion "('a, 'h) channel_op" bool
  | post_deferred_completion "('a, 'h) channel_op"
  | work_started

text \<open>
  \<open>op_queue<operation>\<close>: \<open>front\<close> is the null pointer on an empty queue, \<open>pop\<close> removes
  the front operation, \<open>push\<close> appends at the back.
\<close>

definition front :: "'x list \<Rightarrow> 'x option" where
  "front q = (case q of [] \<Rightarrow> None | x # _ \<Rightarrow> Some x)"

definition pop :: "'x list \<Rightarrow> 'x list" where
  "pop q = (case q of [] \<Rightarrow> [] | _ # xs \<Rightarrow> xs)"

definition push :: "'x list \<Rightarrow> 'x \<Rightarrow> 'x list" where
  "push q x = q @ [x]"

subsection \<open>Channel state\<close>

text \<open>
  \<open>implementation_type<T>\<close> with the fields of its base. A C++ member \<open>x_\<close> is
  the field \<open>impl_x\<close> here (and \<open>op_x\<close> in an operation), since a name cannot end
  in an underscore. The capacity and the size of the deque are \<open>std::size_t\<close>; the only
  arithmetic on them is the size plus one, taken either below the capacity or right
  after \<open>pop_front\<close>, so it never wraps and natural numbers model it. The links
  \<open>next_\<close> and \<open>prev_\<close> of the service's list of implementations are not read or
  written by any function below and are left out.
\<close>

record ('a, 'h) implementation_type =
  impl_open :: bool
  impl_max_buffer_size :: nat
  impl_putters :: "('a, 'h) channel_op list"
  impl_getters :: "('a, 'h) channel_op list"
  impl_buffer :: "'a list"

type_synonym ('a, 'h) service =
  "('a, 'h) completion list \<times> ('a, 'h) implementation_type"

text \<open>The default constructor of \<open>base_implementation_type\<close>, with an empty deque.\<close>

definition base_implementation :: "('a, 'h) implementation_type" where
  "base_implementation =
     \<lparr>impl_open = True, impl_max_buffer_size = 0, impl_putters = [],
      impl_getters = [], impl_buffer = []\<rparr>"

definition is_open :: "('a, 'h) implementation_type \<Rightarrow> bool" where
  "is_open impl = impl_open impl"

definition ready :: "('a, 'h) implementation_type \<Rightarrow> bool" where
  "ready impl = (impl_buffer impl \<noteq> [] \<or> impl_putters impl \<noteq> [])"

subsection \<open>The matching engine\<close>

fun do_put ::
  "('a, 'h) service \<Rightarrow> ('a, 'h) channel_op \<Rightarrow> bool \<Rightarrow> ('a, 'h) service" where
  "do_put (io, impl) putter is_continuation =
     (if \<not> impl_open impl then
        (io @ [post_immediate_completion (putter\<lparr>op_ec := Some broken_pipe\<rparr>) is_continuation],
         impl)
      else
        (case front (impl_getters impl) of
           Some getter \<Rightarrow>
             (io @ [post_deferred_completion (set_value getter (get_value putter)),
                    post_immediate_completion putter is_continuation],
              impl\<lparr>impl_getters := pop (impl_getters impl)\<rparr>)
         | None \<Rightarrow>
             (if length (impl_buffer impl) < impl_max_buffer_size impl then
                (io @ [post_immediate_completion putter is_continuation],
                 impl\<lparr>impl_buffer := impl_buffer impl @ [get_value putter]\<rparr>)
              else
                (io @ [work_started],
                 impl\<lparr>impl_putters := push (impl_putters impl) putter\<rparr>))))"

fun do_get ::
  "('a, 'h) service \<Rightarrow> ('a, 'h) channel_op \<Rightarrow> bool \<Rightarrow> ('a, 'h) service" where
  "do_get (io, impl) getter is_continuation =
     (case impl_buffer impl of
        v # rest \<Rightarrow>
          (case front (impl_putters impl) of
             Some putter \<Rightarrow>
               (io @ [post_deferred_completion putter,
                      post_immediate_completion (set_value getter v) is_continuation],
                impl\<lparr>impl_buffer := rest @ [get_value putter],
                     impl_putters := pop (impl_putters impl)\<rparr>)
           | None \<Rightarrow>
               (io @ [post_immediate_completion (set_value getter v) is_continuation],
                impl\<lparr>impl_buffer := rest\<rparr>))
      | [] \<Rightarrow>
          (case front (impl_putters impl) of
             Some putter \<Rightarrow>
               (io @ [post_deferred_completion putter,
                      post_immediate_completion (set_value getter (get_value putter))
                        is_continuation],
                impl\<lparr>impl_putters := pop (impl_putters impl)\<rparr>)
           | None \<Rightarrow>
               (if impl_open impl then
                  (io @ [work_started], impl\<lparr>impl_getters := push (impl_getters impl) getter\<rparr>)
                else
                  (io @ [post_immediate_completion (getter\<lparr>op_ec := Some broken_pipe\<rparr>)
                           is_continuation],
                   impl))))"

text \<open>
  \<open>async_put\<close> and \<open>async_get\<close> wrap the handler in a new operation and run the
  algorithm. \<open>is_continuation\<close> is the result of
  \<open>asio_handler_cont_helpers::is_continuation(handler)\<close>.
\<close>

definition put_op :: "'a \<Rightarrow> 'h \<Rightarrow> bool \<Rightarrow> ('a, 'h) channel_op" where
  "put_op v handler is_continuation =
     \<lparr>op_ec = None, op_value = Some v, op_handler = handler,
      op_is_continuation = is_continuation\<rparr>"

definition get_op :: "'h \<Rightarrow> bool \<Rightarrow> ('a, 'h) channel_op" where
  "get_op handler is_continuation =
     \<lparr>op_ec = None, op_value = None, op_handler = handler,
      op_is_continuation = is_continuation\<rparr>"

definition async_put ::
  "('a, 'h) service \<Rightarrow> 'a \<Rightarrow> 'h \<Rightarrow> bool \<Rightarrow> ('a, 'h) service" where
  "async_put s v handler is_continuation =
     do_put s (put_op v handler is_continuation) is_continuation"

definition async_get ::
  "('a, 'h) service \<Rightarrow> 'h \<Rightarrow> bool \<Rightarrow> ('a, 'h) service" where
  "async_get s handler is_continuation =
     do_get s (get_op handler is_continuation) is_continuation"

subsection \<open>Construction, close, cancel and destroy\<close>

text \<open>
  Modelled from the spec: \<open>construct\<close>, whose body is in channel\_service.ipp. Section
  4.1: it initialises an empty, open channel state with the given capacity. That is the
  default-constructed implementation of the header with its capacity set. (It also
  enters the channel in the service's list, which is not part of this model.)
\<close>

definition construct :: "nat \<Rightarrow> ('a, 'h) implementation_type" where
  "construct max_buffer_size =
     base_implementation\<lparr>impl_max_buffer_size := max_buffer_size\<rparr>"

text \<open>
  Modelled from the spec: the loop shared by \<open>close\<close> and \<open>cancel\<close>, whose bodies are
  in channel\_service.ipp. Section 4.4: every queued operation is resolved with the
  error and dispatched immediately. The queue is drained from its front; the hint given
  to the executor is the one the operation carries.
\<close>

fun resolve_all ::
  "error \<Rightarrow> ('a, 'h) channel_op list \<Rightarrow> ('a, 'h) completion list
     \<Rightarrow> ('a, 'h) completion list" where
  "resolve_all e [] io = io"
| "resolve_all e (op # q) io =
     resolve_all e q
       (io @ [post_immediate_completion (op\<lparr>op_ec := Some e\<rparr>) (op_is_continuation op)])"

text \<open>
  Modelled from the spec: \<open>close\<close>. Section 4.4: it sets \<open>is_open = false\<close>, then
  resolves every queued getter and every queued putter with \<open>BrokenChannel\<close>
  (\<open>asio::error::broken_pipe\<close>, the error \<open>do_put\<close> and \<open>do_get\<close> use on a closed
  channel). The buffer is not touched.
\<close>

fun close :: "('a, 'h) service \<Rightarrow> ('a, 'h) service" where
  "close (io, impl) =
     (resolve_all broken_pipe (impl_putters impl)
        (resolve_all broken_pipe (impl_getters impl) io),
      impl\<lparr>impl_open := False, impl_getters := [], impl_putters := []\<rparr>)"

text \<open>
  Modelled from the spec: \<open>cancel\<close>. Section 4.4: it resolves every queued getter and
  putter with \<open>OperationCancelled\<close> (\<open>asio::error::operation_aborted\<close>) and does not
  change \<open>is_open\<close>.
\<close>

fun cancel :: "('a, 'h) service \<Rightarrow> ('a, 'h) service" where
  "cancel (io, impl) =
     (resolve_all operation_aborted (impl_putters impl)
        (resolve_all operation_aborted (impl_getters impl) io),
      impl\<lparr>impl_getters := [], impl_putters := []\<rparr>)"

text \<open>
  Modelled from the spec: \<open>destroy\<close>. Section 4.1: after taking the channel out of the
  service's list it cancels all operations still queued.
\<close>

definition destroy :: "('a, 'h) service \<Rightarrow> ('a, 'h) service" where
  "destroy s = cancel s"

subsection \<open>Sequences of calls\<close>

text \<open>
  The calls a user makes on one channel, and a channel driven by a list of them, first
  call first.
\<close>

datatype ('a, 'h) call = Put 'a 'h bool | Get 'h bool | Close | Cancel

fun apply_call :: "('a, 'h) service \<Rightarrow> ('a, 'h) call \<Rightarrow> ('a, 'h) service" where
  "apply_call s (Put v handler is_continuation) = async_put s v handler is_continuation"
| "apply_call s (Get handler is_continuation) = async_get s handler is_continuation"
| "apply_call s Close = close s"
| "apply_call s Cancel = cancel s"

definition run :: "('a, 'h) service \<Rightarrow> ('a, 'h) call list \<Rightarrow> ('a, 'h) service" where
  "run s cs = foldl apply_call s cs"

text \<open>
  The operations a call on the executor hands over, and the handlers of all operations
  handed over, of all operations waiting in the channel, and of all operations submitted
  by a list of calls.
\<close>

fun completed :: "('a, 'h) completion \<Rightarrow> ('a, 'h) channel_op list" where
  "completed (post_immediate_completion op is_continuation) = [op]"
| "completed (post_deferred_completion op) = [op]"
| "completed work_started = []"

definition dispatched :: "('a, 'h) completion list \<Rightarrow> ('a, 'h) channel_op list" where
  "dispatched io = concat (map completed io)"

definition queued :: "('a, 'h) implementation_type \<Rightarrow> ('a, 'h) channel_op list" where
  "queued impl = impl_putters impl @ impl_getters impl"

fun submitted :: "('a, 'h) call list \<Rightarrow> 'h list" where
  "submitted [] = []"
| "submitted (Put v handler is_continuation # cs) = handler # submitted cs"
| "submitted (Get handler is_continuation # cs) = handler # submitted cs"
| "submitted (c # cs) = submitted cs"

definition failed_with ::
  "error \<Rightarrow> ('a, 'h) completion list \<Rightarrow> ('a, 'h) channel_op list" where
  "failed_with e io = filter (\<lambda>op. op_ec op = Some e) (dispatched io)"

section \<open>The put algorithm\<close>

text \<open>
  Claim C1. An asynchronous put on an open channel does one of three things. With a
  getter queued, the front getter leaves the queue with the put's value in its slot and
  is posted for deferred completion, the putter is posted for immediate completion, and
  the buffer is not touched; neither operation is given an error (the getter keeps the
  error field it was queued with, which is empty for every getter that \<open>async_get\<close>
  queued). With no getter and room in the buffer, the value goes to the back of the
  buffer and the putter is posted for immediate completion with no error. Otherwise the
  putter goes to the back of the putters queue, \<open>work_started\<close> is called and nothing is
  posted.
\<close>

theorem async_put_open:
  assumes "impl_open impl"
  shows "(impl_getters impl = g # gs \<longrightarrow>
            async_put (io, impl) v h c =
              (io @ [post_deferred_completion (g\<lparr>op_value := Some v\<rparr>),
                     post_immediate_completion (put_op v h c) c],
               impl\<lparr>impl_getters := gs\<rparr>)
            \<and> op_ec (g\<lparr>op_value := Some v\<rparr>) = op_ec g \<and> op_ec (put_op v h c) = None)
       \<and> (impl_getters impl = [] \<and> length (impl_buffer impl) < impl_max_buffer_size impl \<longrightarrow>
            async_put (io, impl) v h c =
              (io @ [post_immediate_completion (put_op v h c) c],
               impl\<lparr>impl_buffer := impl_buffer impl @ [v]\<rparr>)
            \<and> op_ec (put_op v h c) = None)
       \<and> (impl_getters impl = [] \<and> \<not> length (impl_buffer impl) < impl_max_buffer_size impl \<longrightarrow>
            async_put (io, impl) v h c =
              (io @ [work_started], impl\<lparr>impl_putters := impl_putters impl @ [put_op v h c]\<rparr>))"
  using assms
  by (simp add: async_put_def put_op_def front_def pop_def push_def
      get_value_def set_value_def)

text \<open>
  The three cases on a channel of capacity 1: a put that meets the queued getter 5, a
  put into the empty buffer, and a put that finds the buffer full.
\<close>

theorem async_put_open_witness:
  "async_put ([], \<lparr>impl_open = True, impl_max_buffer_size = 1, impl_putters = [],
                   impl_getters = [get_op (5::nat) False], impl_buffer = []\<rparr>) (7::nat) 6 True =
     ([post_deferred_completion ((get_op 5 False)\<lparr>op_value := Some 7\<rparr>),
       post_immediate_completion (put_op 7 6 True) True],
      \<lparr>impl_open = True, impl_max_buffer_size = 1, impl_putters = [],
       impl_getters = [], impl_buffer = []\<rparr>)
   \<and> async_put ([], \<lparr>impl_open = True, impl_max_buffer_size = 1, impl_putters = [],
                   impl_getters = [], impl_buffer = []\<rparr>) (7::nat) (6::nat) True =
     ([post_immediate_completion (put_op 7 6 True) True],
      \<lparr>impl_open = True, impl_max_buffer_size = 1, impl_putters = [],
       impl_getters = [], impl_buffer = [7]\<rparr>)
   \<and> async_put ([], \<lparr>impl_open = True, impl_max_buffer_size = 1, impl_putters = [],
                   impl_getters = [], impl_buffer = [3]\<rparr>) (7::nat) (6::nat) True =
     ([work_started],
      \<lparr>impl_open = True, impl_max_buffer_size = 1, impl_putters = [put_op 7 6 True],
       impl_getters = [], impl_buffer = [3]\<rparr>)"
  using
    async_put_open [where impl = "\<lparr>impl_open = True, impl_max_buffer_size = 1,
        impl_putters = [], impl_getters = [get_op (5::nat) False], impl_buffer = []\<rparr>"
      and g = "get_op 5 False" and gs = "[]" and io = "[]" and v = "7::nat" and h = 6
      and c = True]
    async_put_open [where impl = "\<lparr>impl_open = True, impl_max_buffer_size = 1,
        impl_putters = [], impl_getters = [], impl_buffer = []\<rparr>"
      and io = "[]" and v = "7::nat" and h = "6::nat" and c = True]
    async_put_open [where impl = "\<lparr>impl_open = True, impl_max_buffer_size = 1,
        impl_putters = [], impl_getters = [], impl_buffer = [3]\<rparr>"
      and io = "[]" and v = "7::nat" and h = "6::nat" and c = True]
  by simp

section \<open>The get algorithm\<close>

text \<open>
  Claim C2. An asynchronous get takes the front value of a non-empty buffer into its
  value slot; if a putter is queued, the front putter's value goes to the back of the
  buffer, the putter leaves the queue and is posted for deferred completion; the getter
  is posted for immediate completion with no error. With an empty buffer and a putter
  queued, the front putter's value goes straight into the getter, the putter leaves the
  queue and is posted deferred, the getter immediately. With an empty buffer, no putter
  and an open channel, the getter goes to the back of the getters queue,
  \<open>work_started\<close> is called and nothing is posted.
\<close>

theorem async_get_cases:
  "(impl_buffer impl = v # vs \<and> impl_putters impl = p # ps \<and> op_value p = Some w \<longrightarrow>
      async_get (io, impl) h c =
        (io @ [post_deferred_completion p,
               post_immediate_completion ((get_op h c)\<lparr>op_value := Some v\<rparr>) c],
         impl\<lparr>impl_buffer := vs @ [w], impl_putters := ps\<rparr>)
      \<and> op_ec ((get_op h c)\<lparr>op_value := Some v\<rparr>) = None)
   \<and> (impl_buffer impl = v # vs \<and> impl_putters impl = [] \<longrightarrow>
      async_get (io, impl) h c =
        (io @ [post_immediate_completion ((get_op h c)\<lparr>op_value := Some v\<rparr>) c],
         impl\<lparr>impl_buffer := vs\<rparr>)
      \<and> op_ec ((get_op h c)\<lparr>op_value := Some v\<rparr>) = None)
   \<and> (impl_buffer impl = [] \<and> impl_putters impl = p # ps \<and> op_value p = Some w \<longrightarrow>
      async_get (io, impl) h c =
        (io @ [post_deferred_completion p,
               post_immediate_completion ((get_op h c)\<lparr>op_value := Some w\<rparr>) c],
         impl\<lparr>impl_putters := ps\<rparr>)
      \<and> op_ec ((get_op h c)\<lparr>op_value := Some w\<rparr>) = None)
   \<and> (impl_buffer impl = [] \<and> impl_putters impl = [] \<and> impl_open impl \<longrightarrow>
      async_get (io, impl) h c =
        (io @ [work_started], impl\<lparr>impl_getters := impl_getters impl @ [get_op h c]\<rparr>))"
  by (simp add: async_get_def get_op_def front_def pop_def push_def
      get_value_def set_value_def)

text \<open>
  The four cases on a capacity-1 channel: a get that frees the slot for the queued
  putter 8, a get from the buffer with nobody waiting, a get served by the queued putter
  8 of an empty buffer, and a get that has to wait.
\<close>

theorem async_get_cases_witness:
  "async_get ([], \<lparr>impl_open = True, impl_max_buffer_size = 1,
       impl_putters = [put_op (4::nat) (8::nat) False], impl_getters = [],
       impl_buffer = [3]\<rparr>) 9 True =
     ([post_deferred_completion (put_op 4 8 False),
       post_immediate_completion ((get_op 9 True)\<lparr>op_value := Some 3\<rparr>) True],
      \<lparr>impl_open = True, impl_max_buffer_size = 1, impl_putters = [],
       impl_getters = [], impl_buffer = [4]\<rparr>)
   \<and> async_get ([], \<lparr>impl_open = True, impl_max_buffer_size = 1,
       impl_putters = [], impl_getters = [], impl_buffer = [3::nat]\<rparr>) (9::nat) True =
     ([post_immediate_completion ((get_op 9 True)\<lparr>op_value := Some 3\<rparr>) True],
      \<lparr>impl_open = True, impl_max_buffer_size = 1, impl_putters = [],
       impl_getters = [], impl_buffer = []\<rparr>)
   \<and> async_get ([], \<lparr>impl_open = True, impl_max_buffer_size = 0,
       impl_putters = [put_op (4::nat) (8::nat) False], impl_getters = [],
       impl_buffer = []\<rparr>) 9 True =
     ([post_deferred_completion (put_op 4 8 False),
       post_immediate_completion ((get_op 9 True)\<lparr>op_value := Some 4\<rparr>) True],
      \<lparr>impl_open = True, impl_max_buffer_size = 0, impl_putters = [],
       impl_getters = [], impl_buffer = []\<rparr>)
   \<and> async_get ([], \<lparr>impl_open = True, impl_max_buffer_size = 1,
       impl_putters = [], impl_getters = [], impl_buffer = ([]::nat list)\<rparr>) (9::nat) True =
     ([work_started],
      \<lparr>impl_open = True, impl_max_buffer_size = 1, impl_putters = [],
       impl_getters = [get_op 9 True], impl_buffer = []\<rparr>)"
  using
    async_get_cases [where impl = "\<lparr>impl_open = True, impl_max_buffer_size = 1,
        impl_putters = [put_op (4::nat) (8::nat) False], impl_getters = [],
        impl_buffer = [3]\<rparr>"
      and v = 3 and vs = "[]" and p = "put_op 4 8 False" and ps = "[]" and w = 4
      and io = "[]" and h = 9 and c = True]
    async_get_cases [where impl = "\<lparr>impl_open = True, impl_max_buffer_size = 1,
        impl_putters = [], impl_getters = [], impl_buffer = [3::nat]\<rparr>"
      and v = 3 and vs = "[]" and io = "[]" and h = "9::nat" and c = True]
    async_get_cases [where impl = "\<lparr>impl_open = True, impl_max_buffer_size = 0,
        impl_putters = [put_op (4::nat) (8::nat) False], impl_getters = [],
        impl_buffer = []\<rparr>"
      and p = "put_op 4 8 False" and ps = "[]" and w = 4
      and io = "[]" and h = 9 and c = True]
    async_get_cases [where impl = "\<lparr>impl_open = True, impl_max_buffer_size = 1,
        impl_putters = [], impl_getters = [], impl_buffer = ([]::nat list)\<rparr>"
      and io = "[]" and h = "9::nat" and c = True]
  by (simp add: put_op_def)

section \<open>Errors on a closed channel\<close>

text \<open>
  Claim C10. A put on a closed channel, and a get on a closed channel with an empty
  buffer and no queued putter, hand the operation to the executor with \<open>broken_pipe\<close>
  and leave the whole channel state (open flag, capacity, buffer, both queues) as it
  was.
\<close>

theorem error_leaves_state:
  "(\<not> impl_open impl \<longrightarrow>
      async_put (io, impl) v h c =
        (io @ [post_immediate_completion ((put_op v h c)\<lparr>op_ec := Some broken_pipe\<rparr>) c],
         impl))
   \<and> (\<not> impl_open impl \<and> impl_buffer impl = [] \<and> impl_putters impl = [] \<longrightarrow>
      async_get (io, impl) h c =
        (io @ [post_immediate_completion ((get_op h c)\<lparr>op_ec := Some broken_pipe\<rparr>) c],
         impl))"
  by (simp add: async_put_def async_get_def front_def)

theorem error_leaves_state_witness:
  "async_put ([], \<lparr>impl_open = False, impl_max_buffer_size = 2, impl_putters = [],
       impl_getters = [], impl_buffer = [1::nat]\<rparr>) 7 (6::nat) False =
     ([post_immediate_completion ((put_op 7 6 False)\<lparr>op_ec := Some broken_pipe\<rparr>) False],
      \<lparr>impl_open = False, impl_max_buffer_size = 2, impl_putters = [],
       impl_getters = [], impl_buffer = [1]\<rparr>)
   \<and> async_get ([], \<lparr>impl_open = False, impl_max_buffer_size = 2, impl_putters = [],
       impl_getters = [], impl_buffer = ([]::nat list)\<rparr>) (6::nat) False =
     ([post_immediate_completion ((get_op 6 False)\<lparr>op_ec := Some broken_pipe\<rparr>) False],
      \<lparr>impl_open = False, impl_max_buffer_size = 2, impl_putters = [],
       impl_getters = [], impl_buffer = []\<rparr>)"
  using
    error_leaves_state [where impl = "\<lparr>impl_open = False, impl_max_buffer_size = 2,
        impl_putters = [], impl_getters = [], impl_buffer = [1::nat]\<rparr>"
      and io = "[]" and v = 7 and h = "6::nat" and c = False]
    error_leaves_state [where impl = "\<lparr>impl_open = False, impl_max_buffer_size = 2,
        impl_putters = [], impl_getters = [], impl_buffer = ([]::nat list)\<rparr>"
      and io = "[]" and h = "6::nat" and c = False]
  by simp

section \<open>Helper facts\<close>

lemma resolve_all_map:
  "resolve_all e q io =
     io @ map (\<lambda>op. post_immediate_completion (op\<lparr>op_ec := Some e\<rparr>)
                 (op_is_continuation op)) q"
  by (induction q arbitrary: io) simp_all

lemma run_Nil: "run s [] = s"
  by (simp add: run_def)

lemma run_Cons: "run s (c # cs) = run (apply_call s c) cs"
  by (simp add: run_def)

lemma run_append: "run s (cs @ ds) = run (run s cs) ds"
  by (simp add: run_def)

lemma dispatched_append: "dispatched (io @ io') = dispatched io @ dispatched io'"
  by (simp add: dispatched_def)

lemma failed_with_append:
  "failed_with e (io @ io') = failed_with e io @ failed_with e io'"
  by (simp add: failed_with_def dispatched_append)

text \<open>
  Gets on a closed channel with no queued putter take the buffered values from the
  front, one per get.
\<close>

lemma drain_closed:
  "\<not> impl_open impl \<Longrightarrow> impl_putters impl = [] \<Longrightarrow> length hs \<le> length (impl_buffer impl) \<Longrightarrow>
     run (io, impl) (map (\<lambda>(h, c). Get h c) hs) =
       (io @ map (\<lambda>((h, c), v).
                 post_immediate_completion ((get_op h c)\<lparr>op_value := Some v\<rparr>) c)
              (zip hs (impl_buffer impl)),
        impl\<lparr>impl_buffer := drop (length hs) (impl_buffer impl)\<rparr>)"
proof (induction hs arbitrary: io impl)
  case Nil
  then show ?case by (simp add: run_Nil)
next
  case (Cons x hs)
  obtain h c where x: "x = (h, c)" by (cases x)
  from Cons.prems obtain v vs where buf: "impl_buffer impl = v # vs"
    by (cases "impl_buffer impl") auto
  let ?impl = "impl\<lparr>impl_buffer := vs\<rparr>"
  have step: "async_get (io, impl) h c =
      (io @ [post_immediate_completion ((get_op h c)\<lparr>op_value := Some v\<rparr>) c], ?impl)"
    using buf Cons.prems(2) by (simp add: async_get_def front_def set_value_def)
  have "run (io @ [post_immediate_completion ((get_op h c)\<lparr>op_value := Some v\<rparr>) c], ?impl)
          (map (\<lambda>(h, c). Get h c) hs) =
        ((io @ [post_immediate_completion ((get_op h c)\<lparr>op_value := Some v\<rparr>) c]) @
           map (\<lambda>((h, c), v).
                 post_immediate_completion ((get_op h c)\<lparr>op_value := Some v\<rparr>) c)
              (zip hs (impl_buffer ?impl)),
         ?impl\<lparr>impl_buffer := drop (length hs) (impl_buffer ?impl)\<rparr>)"
    using Cons.prems buf by (intro Cons.IH) simp_all
  then show ?case
    using buf by (simp add: x run_Cons step)
qed

section \<open>When an operation fails with \<open>broken_pipe\<close>\<close>

text \<open>
  Claim C7. A put on a closed channel is always resolved with \<open>broken_pipe\<close> and
  immediate dispatch, and a put on an open channel adds no \<open>broken_pipe\<close> failure. A
  get on a closed channel is resolved with \<open>broken_pipe\<close> when the buffer is empty and
  no putter is queued, and in every other state a get adds no \<open>broken_pipe\<close> failure.
  (The operations already waiting carry no error, as every operation queued by
  \<open>async_put\<close> and \<open>async_get\<close> does.) On a closed channel with nobody queued, gets
  succeed with the buffered values in order, one each, and the get after the last
  buffered value fails with \<open>broken_pipe\<close>.
\<close>

theorem broken_pipe_conditions:
  "(\<not> impl_open impl \<longrightarrow>
      async_put (io, impl) v h c =
        (io @ [post_immediate_completion ((put_op v h c)\<lparr>op_ec := Some broken_pipe\<rparr>) c],
         impl))
   \<and> (impl_open impl \<and> list_all (\<lambda>op. op_ec op = None) (queued impl) \<longrightarrow>
      failed_with broken_pipe (fst (async_put (io, impl) v h c)) =
        failed_with broken_pipe io)
   \<and> (\<not> impl_open impl \<and> impl_buffer impl = [] \<and> impl_putters impl = [] \<longrightarrow>
      async_get (io, impl) h c =
        (io @ [post_immediate_completion ((get_op h c)\<lparr>op_ec := Some broken_pipe\<rparr>) c],
         impl))
   \<and> ((impl_open impl \<or> impl_buffer impl \<noteq> [] \<or> impl_putters impl \<noteq> []) \<and>
        list_all (\<lambda>op. op_ec op = None) (queued impl) \<longrightarrow>
      failed_with broken_pipe (fst (async_get (io, impl) h c)) =
        failed_with broken_pipe io)
   \<and> (\<not> impl_open impl \<and> impl_putters impl = [] \<and> length hs \<le> length (impl_buffer impl) \<longrightarrow>
      run (io, impl) (map (\<lambda>(h, c). Get h c) hs) =
        (io @ map (\<lambda>((h, c), v).
                  post_immediate_completion ((get_op h c)\<lparr>op_value := Some v\<rparr>) c)
               (zip hs (impl_buffer impl)),
         impl\<lparr>impl_buffer := drop (length hs) (impl_buffer impl)\<rparr>))
   \<and> (\<not> impl_open impl \<and> impl_putters impl = [] \<and> length hs = length (impl_buffer impl) \<longrightarrow>
      async_get (run (io, impl) (map (\<lambda>(h, c). Get h c) hs)) h c =
        (fst (run (io, impl) (map (\<lambda>(h, c). Get h c) hs)) @
           [post_immediate_completion ((get_op h c)\<lparr>op_ec := Some broken_pipe\<rparr>) c],
         impl\<lparr>impl_buffer := []\<rparr>))"
proof (intro conjI impI)
  assume "\<not> impl_open impl"
  then show "async_put (io, impl) v h c =
      (io @ [post_immediate_completion ((put_op v h c)\<lparr>op_ec := Some broken_pipe\<rparr>) c], impl)"
    by (simp add: async_put_def)
next
  assume a: "impl_open impl \<and> list_all (\<lambda>op. op_ec op = None) (queued impl)"
  show "failed_with broken_pipe (fst (async_put (io, impl) v h c)) =
      failed_with broken_pipe io"
  proof (cases "impl_getters impl")
    case Nil
    with a show ?thesis
      by (simp add: async_put_def front_def push_def put_op_def failed_with_append)
        (simp add: failed_with_def dispatched_def)
  next
    case (Cons g gs)
    with a show ?thesis
      by (simp add: async_put_def front_def pop_def put_op_def set_value_def queued_def
          failed_with_append)
        (simp add: failed_with_def dispatched_def)
  qed
next
  assume "\<not> impl_open impl \<and> impl_buffer impl = [] \<and> impl_putters impl = []"
  then show "async_get (io, impl) h c =
      (io @ [post_immediate_completion ((get_op h c)\<lparr>op_ec := Some broken_pipe\<rparr>) c], impl)"
    by (simp add: async_get_def front_def)
next
  assume a: "(impl_open impl \<or> impl_buffer impl \<noteq> [] \<or> impl_putters impl \<noteq> []) \<and>
      list_all (\<lambda>op. op_ec op = None) (queued impl)"
  show "failed_with broken_pipe (fst (async_get (io, impl) h c)) =
      failed_with broken_pipe io"
  proof (cases "impl_putters impl")
    case Nil
    with a show ?thesis
      by (cases "impl_buffer impl")
        (auto simp: async_get_def front_def push_def get_op_def set_value_def
          failed_with_def dispatched_def)
  next
    case (Cons p ps)
    with a show ?thesis
      by (cases "impl_buffer impl")
        (auto simp: async_get_def front_def pop_def get_op_def set_value_def queued_def
          failed_with_def dispatched_def)
  qed
next
  assume "\<not> impl_open impl \<and> impl_putters impl = [] \<and> length hs \<le> length (impl_buffer impl)"
  then show "run (io, impl) (map (\<lambda>(h, c). Get h c) hs) =
      (io @ map (\<lambda>((h, c), v).
                post_immediate_completion ((get_op h c)\<lparr>op_value := Some v\<rparr>) c)
             (zip hs (impl_buffer impl)),
       impl\<lparr>impl_buffer := drop (length hs) (impl_buffer impl)\<rparr>)"
    by (simp add: drain_closed)
next
  assume a: "\<not> impl_open impl \<and> impl_putters impl = [] \<and> length hs = length (impl_buffer impl)"
  then have "run (io, impl) (map (\<lambda>(h, c). Get h c) hs) =
      (io @ map (\<lambda>((h, c), v).
                post_immediate_completion ((get_op h c)\<lparr>op_value := Some v\<rparr>) c)
             (zip hs (impl_buffer impl)),
       impl\<lparr>impl_buffer := []\<rparr>)"
    by (simp add: drain_closed)
  with a show "async_get (run (io, impl) (map (\<lambda>(h, c). Get h c) hs)) h c =
      (fst (run (io, impl) (map (\<lambda>(h, c). Get h c) hs)) @
         [post_immediate_completion ((get_op h c)\<lparr>op_ec := Some broken_pipe\<rparr>) c],
       impl\<lparr>impl_buffer := []\<rparr>)"
    by (simp add: async_get_def front_def)
qed

text \<open>
  A closed capacity-2 channel holding 3 and 4: a put fails; two gets return 3 and 4 and
  a third get fails. On an open channel with a getter waiting, a put fails nobody.
\<close>

theorem broken_pipe_conditions_witness:
  "async_put ([], \<lparr>impl_open = False, impl_max_buffer_size = 2, impl_putters = [],
       impl_getters = [], impl_buffer = [3::nat, 4]\<rparr>) 7 (6::nat) False =
     ([post_immediate_completion ((put_op 7 6 False)\<lparr>op_ec := Some broken_pipe\<rparr>) False],
      \<lparr>impl_open = False, impl_max_buffer_size = 2, impl_putters = [],
       impl_getters = [], impl_buffer = [3, 4]\<rparr>)
   \<and> run ([], \<lparr>impl_open = False, impl_max_buffer_size = 2, impl_putters = [],
       impl_getters = [], impl_buffer = [3::nat, 4]\<rparr>)
       [Get (10::nat) False, Get 11 True] =
     ([post_immediate_completion ((get_op 10 False)\<lparr>op_value := Some 3\<rparr>) False,
       post_immediate_completion ((get_op 11 True)\<lparr>op_value := Some 4\<rparr>) True],
      \<lparr>impl_open = False, impl_max_buffer_size = 2, impl_putters = [],
       impl_getters = [], impl_buffer = []\<rparr>)
   \<and> async_get (run ([], \<lparr>impl_open = False, impl_max_buffer_size = 2, impl_putters = [],
       impl_getters = [], impl_buffer = [3::nat, 4]\<rparr>)
       [Get (10::nat) False, Get 11 True]) 12 False =
     ([post_immediate_completion ((get_op 10 False)\<lparr>op_value := Some 3\<rparr>) False,
       post_immediate_completion ((get_op 11 True)\<lparr>op_value := Some 4\<rparr>) True,
       post_immediate_completion ((get_op 12 False)\<lparr>op_ec := Some broken_pipe\<rparr>) False],
      \<lparr>impl_open = False, impl_max_buffer_size = 2, impl_putters = [],
       impl_getters = [], impl_buffer = []\<rparr>)
   \<and> failed_with broken_pipe (fst (async_put ([], \<lparr>impl_open = True,
       impl_max_buffer_size = 2, impl_putters = [], impl_getters = [get_op (5::nat) False],
       impl_buffer = []\<rparr>) (7::nat) 6 False)) = []
   \<and> failed_with broken_pipe (fst (async_get ([], \<lparr>impl_open = False,
       impl_max_buffer_size = 2, impl_putters = [], impl_getters = [],
       impl_buffer = [3::nat]\<rparr>) (6::nat) False)) = []"
proof -
  let ?closed = "\<lparr>impl_open = False, impl_max_buffer_size = 2, impl_putters = [],
       impl_getters = [], impl_buffer = [3::nat, 4]\<rparr> :: (nat, nat) implementation_type"
  let ?waiting = "\<lparr>impl_open = True, impl_max_buffer_size = 2, impl_putters = [],
       impl_getters = [get_op (5::nat) False], impl_buffer = []\<rparr>
       :: (nat, nat) implementation_type"
  let ?last = "\<lparr>impl_open = False, impl_max_buffer_size = 2, impl_putters = [],
       impl_getters = [], impl_buffer = [3::nat]\<rparr> :: (nat, nat) implementation_type"
  note drained = broken_pipe_conditions [where impl = ?closed and io = "[]" and v = 7
      and h = 12 and c = False and hs = "[(10, False), (11, True)]"]
  note put_closed = broken_pipe_conditions [where impl = ?closed and io = "[]" and v = 7
      and h = 6 and c = False and hs = "[]"]
  note put_open = broken_pipe_conditions [where impl = ?waiting and io = "[]" and v = 7
      and h = 6 and c = False and hs = "[]"]
  note get_last = broken_pipe_conditions [where impl = ?last and io = "[]" and v = 7
      and h = 6 and c = False and hs = "[]"]
  have 1: "async_put ([], ?closed) 7 6 False =
     ([post_immediate_completion ((put_op 7 6 False)\<lparr>op_ec := Some broken_pipe\<rparr>) False],
      ?closed)"
    using put_closed by simp
  have 2: "run ([], ?closed) [Get 10 False, Get 11 True] =
     ([post_immediate_completion ((get_op 10 False)\<lparr>op_value := Some 3\<rparr>) False,
       post_immediate_completion ((get_op 11 True)\<lparr>op_value := Some 4\<rparr>) True],
      ?closed\<lparr>impl_buffer := []\<rparr>)"
    using drained by simp
  have 3: "async_get (run ([], ?closed) [Get 10 False, Get 11 True]) 12 False =
     ([post_immediate_completion ((get_op 10 False)\<lparr>op_value := Some 3\<rparr>) False,
       post_immediate_completion ((get_op 11 True)\<lparr>op_value := Some 4\<rparr>) True,
       post_immediate_completion ((get_op 12 False)\<lparr>op_ec := Some broken_pipe\<rparr>) False],
      ?closed\<lparr>impl_buffer := []\<rparr>)"
    using drained by (simp add: 2)
  have 4: "failed_with broken_pipe (fst (async_put ([], ?waiting) 7 6 False)) = []"
    using put_open by (simp add: queued_def get_op_def failed_with_def dispatched_def)
  have 5: "failed_with broken_pipe (fst (async_get ([], ?last) 6 False)) = []"
    using get_last by (simp add: queued_def failed_with_def dispatched_def)
  from 1 2 3 4 5 show ?thesis by simp
qed

section \<open>Close and cancel\<close>

text \<open>
  Claim C3. \<open>close\<close> sets the open flag to false, hands every queued getter and every
  queued putter to the executor for immediate dispatch with \<open>broken_pipe\<close>, leaves the
  buffer (and the capacity) as they were, and leaves both queues empty.
\<close>

theorem close_resolves_all:
  "close (io, impl) =
     (io @ map (\<lambda>op. post_immediate_completion (op\<lparr>op_ec := Some broken_pipe\<rparr>)
                  (op_is_continuation op))
             (impl_getters impl @ impl_putters impl),
      impl\<lparr>impl_open := False, impl_getters := [], impl_putters := []\<rparr>)
   \<and> impl_open (snd (close (io, impl))) = False
   \<and> impl_buffer (snd (close (io, impl))) = impl_buffer impl
   \<and> impl_max_buffer_size (snd (close (io, impl))) = impl_max_buffer_size impl
   \<and> impl_putters (snd (close (io, impl))) = []
   \<and> impl_getters (snd (close (io, impl))) = []"
  by (simp add: resolve_all_map)

text \<open>
  A full capacity-2 channel with one putter waiting: \<open>close\<close> fails the putter and
  keeps the two buffered values.
\<close>

theorem close_resolves_all_witness:
  "close ([], \<lparr>impl_open = True, impl_max_buffer_size = 2,
       impl_putters = [put_op (30::nat) (7::nat) False], impl_getters = [],
       impl_buffer = [10, 20]\<rparr>) =
     ([post_immediate_completion ((put_op 30 7 False)\<lparr>op_ec := Some broken_pipe\<rparr>) False],
      \<lparr>impl_open = False, impl_max_buffer_size = 2, impl_putters = [],
       impl_getters = [], impl_buffer = [10, 20]\<rparr>)"
  using close_resolves_all [where io = "[]" and impl = "\<lparr>impl_open = True,
      impl_max_buffer_size = 2, impl_putters = [put_op (30::nat) (7::nat) False],
      impl_getters = [], impl_buffer = [10, 20]\<rparr>"]
  by (simp add: put_op_def)

text \<open>
  Claim C4. \<open>cancel\<close> hands every queued getter and putter to the executor for
  immediate dispatch with \<open>operation_aborted\<close>, leaves the open flag, the buffer and the
  capacity as they were, and leaves both queues empty. After a cancel on an open channel
  the state is that of an open channel with the same buffer and nobody waiting, so a put
  is buffered if there is room and waits otherwise, and a get takes the front of the
  buffer or waits.
\<close>

theorem cancel_resolves_all:
  "cancel (io, impl) =
     (io @ map (\<lambda>op. post_immediate_completion (op\<lparr>op_ec := Some operation_aborted\<rparr>)
                  (op_is_continuation op))
             (impl_getters impl @ impl_putters impl),
      impl\<lparr>impl_getters := [], impl_putters := []\<rparr>)
   \<and> impl_open (snd (cancel (io, impl))) = impl_open impl
   \<and> impl_buffer (snd (cancel (io, impl))) = impl_buffer impl
   \<and> impl_max_buffer_size (snd (cancel (io, impl))) = impl_max_buffer_size impl
   \<and> impl_putters (snd (cancel (io, impl))) = []
   \<and> impl_getters (snd (cancel (io, impl))) = []
   \<and> (impl_open impl \<longrightarrow>
        snd (cancel (io, impl)) =
          \<lparr>impl_open = True, impl_max_buffer_size = impl_max_buffer_size impl,
           impl_putters = [], impl_getters = [], impl_buffer = impl_buffer impl\<rparr>
        \<and> async_put (cancel (io, impl)) v h c =
          (if length (impl_buffer impl) < impl_max_buffer_size impl
           then (fst (cancel (io, impl)) @ [post_immediate_completion (put_op v h c) c],
                 \<lparr>impl_open = True, impl_max_buffer_size = impl_max_buffer_size impl,
                  impl_putters = [], impl_getters = [],
                  impl_buffer = impl_buffer impl @ [v]\<rparr>)
           else (fst (cancel (io, impl)) @ [work_started],
                 \<lparr>impl_open = True, impl_max_buffer_size = impl_max_buffer_size impl,
                  impl_putters = [put_op v h c], impl_getters = [],
                  impl_buffer = impl_buffer impl\<rparr>))
        \<and> async_get (cancel (io, impl)) h c =
          (case impl_buffer impl of
             [] \<Rightarrow> (fst (cancel (io, impl)) @ [work_started],
                    \<lparr>impl_open = True, impl_max_buffer_size = impl_max_buffer_size impl,
                     impl_putters = [], impl_getters = [get_op h c], impl_buffer = []\<rparr>)
           | x # xs \<Rightarrow>
                (fst (cancel (io, impl)) @
                   [post_immediate_completion ((get_op h c)\<lparr>op_value := Some x\<rparr>) c],
                 \<lparr>impl_open = True, impl_max_buffer_size = impl_max_buffer_size impl,
                  impl_putters = [], impl_getters = [], impl_buffer = xs\<rparr>)))"
  by (cases impl)
    (simp add: resolve_all_map async_put_def async_get_def front_def push_def
      put_op_def get_op_def get_value_def set_value_def split: list.splits)

text \<open>
  Two getters wait on an empty open channel of capacity 2. \<open>cancel\<close> aborts both; the
  channel is still open, a following put of 9 is buffered and a following get waits on
  the empty buffer.
\<close>

theorem cancel_resolves_all_witness:
  "cancel ([], \<lparr>impl_open = True, impl_max_buffer_size = 2, impl_putters = [],
       impl_getters = [get_op (5::nat) False, get_op 6 True],
       impl_buffer = ([]::nat list)\<rparr>) =
     ([post_immediate_completion ((get_op 5 False)\<lparr>op_ec := Some operation_aborted\<rparr>) False,
       post_immediate_completion ((get_op 6 True)\<lparr>op_ec := Some operation_aborted\<rparr>) True],
      \<lparr>impl_open = True, impl_max_buffer_size = 2, impl_putters = [],
       impl_getters = [], impl_buffer = []\<rparr>)
   \<and> async_put (cancel ([], \<lparr>impl_open = True, impl_max_buffer_size = 2, impl_putters = [],
       impl_getters = [get_op (5::nat) False, get_op 6 True],
       impl_buffer = ([]::nat list)\<rparr>)) 9 7 False =
     ([post_immediate_completion ((get_op 5 False)\<lparr>op_ec := Some operation_aborted\<rparr>) False,
       post_immediate_completion ((get_op 6 True)\<lparr>op_ec := Some operation_aborted\<rparr>) True,
       post_immediate_completion (put_op 9 7 False) False],
      \<lparr>impl_open = True, impl_max_buffer_size = 2, impl_putters = [],
       impl_getters = [], impl_buffer = [9]\<rparr>)
   \<and> async_get (cancel ([], \<lparr>impl_open = True, impl_max_buffer_size = 2, impl_putters = [],
       impl_getters = [get_op (5::nat) False, get_op 6 True],
       impl_buffer = ([]::nat list)\<rparr>)) 8 False =
     ([post_immediate_completion ((get_op 5 False)\<lparr>op_ec := Some operation_aborted\<rparr>) False,
       post_immediate_completion ((get_op 6 True)\<lparr>op_ec := Some operation_aborted\<rparr>) True,
       work_started],
      \<lparr>impl_open = True, impl_max_buffer_size = 2, impl_putters = [],
       impl_getters = [get_op 8 False], impl_buffer = []\<rparr>)"
proof -
  let ?impl = "\<lparr>impl_open = True, impl_max_buffer_size = 2, impl_putters = [],
       impl_getters = [get_op (5::nat) False, get_op 6 True],
       impl_buffer = ([]::nat list)\<rparr>"
  note c = cancel_resolves_all [where impl = ?impl and io = "[]"]
  have 1: "cancel ([], ?impl) =
     ([post_immediate_completion ((get_op 5 False)\<lparr>op_ec := Some operation_aborted\<rparr>) False,
       post_immediate_completion ((get_op 6 True)\<lparr>op_ec := Some operation_aborted\<rparr>) True],
      \<lparr>impl_open = True, impl_max_buffer_size = 2, impl_putters = [],
       impl_getters = [], impl_buffer = []\<rparr>)"
    using c [where v = 9 and h = 7 and c = False] by (simp add: get_op_def)
  have 2: "async_put (cancel ([], ?impl)) 9 7 False =
     (fst (cancel ([], ?impl)) @ [post_immediate_completion (put_op 9 7 False) False],
      \<lparr>impl_open = True, impl_max_buffer_size = 2, impl_putters = [],
       impl_getters = [], impl_buffer = [9]\<rparr>)"
    using c [where v = 9 and h = 7 and c = False] by simp
  have 3: "async_get (cancel ([], ?impl)) 8 False =
     (fst (cancel ([], ?impl)) @ [work_started],
      \<lparr>impl_open = True, impl_max_buffer_size = 2, impl_putters = [],
       impl_getters = [get_op 8 False], impl_buffer = []\<rparr>)"
    using c [where v = 9 and h = 8 and c = False] by simp
  show ?thesis
    using 2 3 unfolding 1 by simp
qed

text \<open>
  Claim C9. Closing twice gives the state that closing once gives: the second close
  finds both queues empty and the flag already false, posts nothing, and leaves the
  buffer and the capacity alone.
\<close>

theorem close_idempotent:
  "close (close (io, impl)) = close (io, impl)
   \<and> impl_putters (snd (close (close (io, impl)))) = []
   \<and> impl_getters (snd (close (close (io, impl)))) = []
   \<and> impl_open (snd (close (close (io, impl)))) = False
   \<and> impl_buffer (snd (close (close (io, impl)))) = impl_buffer (snd (close (io, impl)))
   \<and> impl_max_buffer_size (snd (close (close (io, impl)))) =
       impl_max_buffer_size (snd (close (io, impl)))
   \<and> impl_buffer (snd (close (io, impl))) = impl_buffer impl
   \<and> impl_max_buffer_size (snd (close (io, impl))) = impl_max_buffer_size impl"
  by (simp add: resolve_all_map)

text \<open>
  The same full channel with one putter waiting, closed twice: the putter is failed
  once, by the first close.
\<close>

theorem close_idempotent_witness:
  "close (close ([], \<lparr>impl_open = True, impl_max_buffer_size = 2,
       impl_putters = [put_op (30::nat) (7::nat) False], impl_getters = [],
       impl_buffer = [10, 20]\<rparr>)) =
     ([post_immediate_completion ((put_op 30 7 False)\<lparr>op_ec := Some broken_pipe\<rparr>) False],
      \<lparr>impl_open = False, impl_max_buffer_size = 2, impl_putters = [],
       impl_getters = [], impl_buffer = [10, 20]\<rparr>)"
  using close_idempotent [where io = "[]" and impl = "\<lparr>impl_open = True,
      impl_max_buffer_size = 2, impl_putters = [put_op (30::nat) (7::nat) False],
      impl_getters = [], impl_buffer = [10, 20]\<rparr>"]
  by (simp add: put_op_def)

section \<open>Invariants of a channel\<close>

lemma apply_call_bounded:
  assumes "length (impl_buffer (snd s)) \<le> impl_max_buffer_size (snd s)"
  shows "length (impl_buffer (snd (apply_call s c))) \<le> impl_max_buffer_size (snd s)
       \<and> impl_max_buffer_size (snd (apply_call s c)) = impl_max_buffer_size (snd s)"
proof (cases s)
  case (Pair io impl)
  with assms show ?thesis
    by (cases c)
      (auto simp: async_put_def async_get_def front_def pop_def push_def
        split: list.splits)
qed

lemma run_bounded:
  "length (impl_buffer (snd s)) \<le> impl_max_buffer_size (snd s) \<Longrightarrow>
     length (impl_buffer (snd (run s cs))) \<le> impl_max_buffer_size (snd s)
     \<and> impl_max_buffer_size (snd (run s cs)) = impl_max_buffer_size (snd s)"
proof (induction cs arbitrary: s)
  case Nil
  then show ?case by (simp add: run_Nil)
next
  case (Cons c cs)
  from apply_call_bounded [OF Cons.prems, of c]
  have "length (impl_buffer (snd (apply_call s c))) \<le> impl_max_buffer_size (snd (apply_call s c))"
    and eq: "impl_max_buffer_size (snd (apply_call s c)) = impl_max_buffer_size (snd s)"
    by simp_all
  from Cons.IH [OF this(1)] eq show ?case
    by (simp add: run_Cons)
qed

lemma apply_call_one_queue:
  assumes "impl_putters (snd s) = [] \<or> impl_getters (snd s) = []"
  shows "impl_putters (snd (apply_call s c)) = [] \<or> impl_getters (snd (apply_call s c)) = []"
proof (cases s)
  case (Pair io impl)
  with assms show ?thesis
    by (cases c)
      (auto simp: async_put_def async_get_def front_def pop_def push_def
        split: list.splits)
qed

lemma run_one_queue:
  "impl_putters (snd s) = [] \<or> impl_getters (snd s) = [] \<Longrightarrow>
     impl_putters (snd (run s cs)) = [] \<or> impl_getters (snd (run s cs)) = []"
proof (induction cs arbitrary: s)
  case Nil
  then show ?case by (simp add: run_Nil)
next
  case (Cons c cs)
  from Cons.IH [OF apply_call_one_queue [OF Cons.prems, of c]] show ?case
    by (simp add: run_Cons)
qed

text \<open>
  Two facts about the operations that wait in a constructed channel, whatever calls
  were made on it: none of them carries an error, and every waiting putter carries its
  value. They are what the statements about single calls assume of the queues they
  start from.
\<close>

lemma apply_call_queued_clean:
  assumes "list_all (\<lambda>op. op_ec op = None) (queued (snd s))"
    and "list_all (\<lambda>op. op_value op \<noteq> None) (impl_putters (snd s))"
  shows "list_all (\<lambda>op. op_ec op = None) (queued (snd (apply_call s c)))
       \<and> list_all (\<lambda>op. op_value op \<noteq> None) (impl_putters (snd (apply_call s c)))"
proof (cases s)
  case (Pair io impl)
  with assms show ?thesis
    by (cases c)
      (auto simp: async_put_def async_get_def put_op_def get_op_def front_def pop_def
        push_def queued_def split: list.splits)
qed

lemma run_queued_clean:
  "list_all (\<lambda>op. op_ec op = None) (queued (snd s)) \<Longrightarrow>
   list_all (\<lambda>op. op_value op \<noteq> None) (impl_putters (snd s)) \<Longrightarrow>
     list_all (\<lambda>op. op_ec op = None) (queued (snd (run s cs)))
     \<and> list_all (\<lambda>op. op_value op \<noteq> None) (impl_putters (snd (run s cs)))"
proof (induction cs arbitrary: s)
  case Nil
  then show ?case by (simp add: run_Nil)
next
  case (Cons c cs)
  from apply_call_queued_clean [OF Cons.prems, of c] Cons.IH [of "apply_call s c"]
  show ?case by (simp add: run_Cons)
qed

lemma constructed_queued_clean:
  "list_all (\<lambda>op. op_ec op = None) (queued (snd (run (io, construct n) cs)))
   \<and> list_all (\<lambda>op. op_value op \<noteq> None) (impl_putters (snd (run (io, construct n) cs)))"
  using run_queued_clean [of "(io, construct n)" cs]
  by (simp add: construct_def base_implementation_def queued_def)

text \<open>
  Claim C5. On a channel constructed with capacity \<open>n\<close>, after any sequence of puts,
  gets, closes and cancels the buffer holds at most \<open>n\<close> values (and the capacity is
  still \<open>n\<close>). In any state at all, a get never leaves the buffer longer than it found
  it, the refill included, and a put leaves the buffer longer only when it found it
  below the capacity.
\<close>

theorem buffer_within_capacity:
  "length (impl_buffer (snd (run (io, construct n) cs))) \<le> n
   \<and> impl_max_buffer_size (snd (run (io, construct n) cs)) = n
   \<and> length (impl_buffer (snd (async_get (io', impl) h c))) \<le> length (impl_buffer impl)
   \<and> (length (impl_buffer (snd (async_put (io', impl) v h c))) = length (impl_buffer impl)
      \<or> length (impl_buffer impl) < impl_max_buffer_size impl
        \<and> length (impl_buffer (snd (async_put (io', impl) v h c))) =
            length (impl_buffer impl) + 1)"
proof -
  have "length (impl_buffer (snd (run (io, construct n) cs))) \<le> n
      \<and> impl_max_buffer_size (snd (run (io, construct n) cs)) = n"
    using run_bounded [of "(io, construct n)" cs]
    by (simp add: construct_def base_implementation_def)
  moreover have "length (impl_buffer (snd (async_get (io', impl) h c))) \<le> length (impl_buffer impl)"
    by (simp add: async_get_def front_def split: list.splits)
  moreover have "length (impl_buffer (snd (async_put (io', impl) v h c))) = length (impl_buffer impl)
      \<or> length (impl_buffer impl) < impl_max_buffer_size impl
        \<and> length (impl_buffer (snd (async_put (io', impl) v h c))) =
            length (impl_buffer impl) + 1"
    by (simp add: async_put_def front_def split: list.splits)
  ultimately show ?thesis by blast
qed

text \<open>
  A capacity-2 channel: two puts are buffered, the third waits, and a get takes the
  first value and moves the waiting putter's value into the buffer, which holds two
  values again.
\<close>

theorem buffer_within_capacity_witness:
  "impl_buffer (snd (run ([], construct 2)
       [Put (10::nat) (5::nat) False, Put 20 6 False, Put 30 7 False, Get 8 False])) =
     [20, 30]
   \<and> length (impl_buffer (snd (run ([], construct 2)
       [Put (10::nat) (5::nat) False, Put 20 6 False, Put 30 7 False, Get 8 False]))) \<le> 2"
proof -
  let ?cs = "[Put (10::nat) (5::nat) False, Put 20 6 False, Put 30 7 False, Get 8 False]"
  have "impl_buffer (snd (run ([], construct 2) ?cs)) = [20, 30]"
    by (simp add: run_def construct_def base_implementation_def async_put_def
        async_get_def front_def pop_def push_def put_op_def get_op_def get_value_def
        set_value_def)
  moreover have "length (impl_buffer (snd (run ([], construct 2) ?cs))) \<le> 2"
    using buffer_within_capacity [where io = "[]" and n = 2 and cs = ?cs,
        THEN conjunct1] .
  ultimately show ?thesis by - (intro conjI; assumption)
qed

text \<open>
  Claim C6. On a channel constructed with any capacity, after any sequence of puts,
  gets, closes and cancels at least one of the two wait queues is empty. A put on an
  open channel that finds a getter queued resolves the pair: the front getter, with the
  put's value in its slot, is posted for deferred completion and the putter for
  immediate completion, the getter leaves its queue and the putters queue is as it was,
  so nothing is enqueued. A get that finds a putter queued resolves the pair: the front
  putter is posted for deferred completion and the getter, holding the front of the
  buffer or else the putter's value, for immediate completion, the putter leaves its
  queue and the getters queue is as it was.
\<close>

theorem never_both_waiting:
  "(impl_putters (snd (run (io, construct n) cs)) = []
      \<or> impl_getters (snd (run (io, construct n) cs)) = [])
   \<and> (impl_open impl \<and> impl_getters impl = g # gs \<longrightarrow>
        async_put (io', impl) v h c =
          (io' @ [post_deferred_completion (g\<lparr>op_value := Some v\<rparr>),
                  post_immediate_completion (put_op v h c) c],
           impl\<lparr>impl_getters := gs\<rparr>)
        \<and> impl_putters (snd (async_put (io', impl) v h c)) = impl_putters impl
        \<and> impl_getters (snd (async_put (io', impl) v h c)) = gs)
   \<and> (impl_putters impl = p # ps \<longrightarrow>
        fst (async_get (io', impl) h c) =
          io' @ [post_deferred_completion p,
                 post_immediate_completion
                   (set_value (get_op h c)
                      (case impl_buffer impl of [] \<Rightarrow> get_value p | x # xs \<Rightarrow> x)) c]
        \<and> impl_getters (snd (async_get (io', impl) h c)) = impl_getters impl
        \<and> impl_putters (snd (async_get (io', impl) h c)) = ps)
   \<and> (impl_putters impl = p # ps \<and> op_value p = Some w \<longrightarrow>
        async_get (io', impl) h c =
          (io' @ [post_deferred_completion p,
                  post_immediate_completion
                    ((get_op h c)\<lparr>op_value :=
                       Some (case impl_buffer impl of [] \<Rightarrow> w | x # xs \<Rightarrow> x)\<rparr>) c],
           impl\<lparr>impl_buffer :=
                  (case impl_buffer impl of [] \<Rightarrow> [] | x # xs \<Rightarrow> xs @ [w]),
                impl_putters := ps\<rparr>))"
proof -
  have "impl_putters (snd (run (io, construct n) cs)) = []
      \<or> impl_getters (snd (run (io, construct n) cs)) = []"
    using run_one_queue [of "(io, construct n)" cs]
    by (simp add: construct_def base_implementation_def)
  moreover have "impl_open impl \<and> impl_getters impl = g # gs \<longrightarrow>
        async_put (io', impl) v h c =
          (io' @ [post_deferred_completion (g\<lparr>op_value := Some v\<rparr>),
                  post_immediate_completion (put_op v h c) c],
           impl\<lparr>impl_getters := gs\<rparr>)
        \<and> impl_putters (snd (async_put (io', impl) v h c)) = impl_putters impl
        \<and> impl_getters (snd (async_put (io', impl) v h c)) = gs"
    by (simp add: async_put_def put_op_def front_def pop_def get_value_def set_value_def)
  moreover have "impl_putters impl = p # ps \<longrightarrow>
        fst (async_get (io', impl) h c) =
          io' @ [post_deferred_completion p,
                 post_immediate_completion
                   (set_value (get_op h c)
                      (case impl_buffer impl of [] \<Rightarrow> get_value p | x # xs \<Rightarrow> x)) c]
        \<and> impl_getters (snd (async_get (io', impl) h c)) = impl_getters impl
        \<and> impl_putters (snd (async_get (io', impl) h c)) = ps"
    by (simp add: async_get_def front_def pop_def split: list.splits)
  moreover have "impl_putters impl = p # ps \<and> op_value p = Some w \<longrightarrow>
        async_get (io', impl) h c =
          (io' @ [post_deferred_completion p,
                  post_immediate_completion
                    ((get_op h c)\<lparr>op_value :=
                       Some (case impl_buffer impl of [] \<Rightarrow> w | x # xs \<Rightarrow> x)\<rparr>) c],
           impl\<lparr>impl_buffer :=
                  (case impl_buffer impl of [] \<Rightarrow> [] | x # xs \<Rightarrow> xs @ [w]),
                impl_putters := ps\<rparr>)"
    by (cases impl)
      (simp add: async_get_def front_def pop_def get_value_def set_value_def
        split: list.splits)
  ultimately show ?thesis by (intro conjI)
qed

text \<open>
  A rendezvous channel: a put waits, a get takes its value, a second get waits. Only
  the getters queue is occupied at the end. A put that meets the waiting getter 8 posts
  the getter with the value 7 and then itself; a get that meets the waiting putter 5
  posts the putter and then itself with the value 7. Both leave the queues empty.
\<close>

theorem never_both_waiting_witness:
  "run ([], construct 0) [Put (7::nat) (5::nat) False, Get 6 True, Get 8 False] =
     ([work_started, post_deferred_completion (put_op 7 5 False),
       post_immediate_completion ((get_op 6 True)\<lparr>op_value := Some 7\<rparr>) True,
       work_started],
      \<lparr>impl_open = True, impl_max_buffer_size = 0, impl_putters = [],
       impl_getters = [get_op 8 False], impl_buffer = []\<rparr>)
   \<and> (impl_putters (snd (run ([], construct 0)
          [Put (7::nat) (5::nat) False, Get 6 True, Get 8 False])) = []
      \<or> impl_getters (snd (run ([], construct 0)
          [Put (7::nat) (5::nat) False, Get 6 True, Get 8 False])) = [])
   \<and> async_put ([], \<lparr>impl_open = True, impl_max_buffer_size = 0, impl_putters = [],
       impl_getters = [get_op (8::nat) False], impl_buffer = []\<rparr>) (7::nat) 9 False =
     ([post_deferred_completion ((get_op 8 False)\<lparr>op_value := Some 7\<rparr>),
       post_immediate_completion (put_op 7 9 False) False],
      \<lparr>impl_open = True, impl_max_buffer_size = 0, impl_putters = [],
       impl_getters = [], impl_buffer = []\<rparr>)
   \<and> async_get ([], \<lparr>impl_open = True, impl_max_buffer_size = 0,
       impl_putters = [put_op (7::nat) (5::nat) False], impl_getters = [],
       impl_buffer = []\<rparr>) 9 False =
     ([post_deferred_completion (put_op 7 5 False),
       post_immediate_completion ((get_op 9 False)\<lparr>op_value := Some 7\<rparr>) False],
      \<lparr>impl_open = True, impl_max_buffer_size = 0, impl_putters = [],
       impl_getters = [], impl_buffer = []\<rparr>)"
proof -
  let ?cs = "[Put (7::nat) (5::nat) False, Get 6 True, Get 8 False]"
  let ?getter = "\<lparr>impl_open = True, impl_max_buffer_size = 0, impl_putters = [],
       impl_getters = [get_op (8::nat) False], impl_buffer = ([]::nat list)\<rparr>"
  let ?putter = "\<lparr>impl_open = True, impl_max_buffer_size = 0,
       impl_putters = [put_op (7::nat) (5::nat) False], impl_getters = [],
       impl_buffer = []\<rparr>"
  have r: "run ([], construct 0) ?cs =
     ([work_started, post_deferred_completion (put_op 7 5 False),
       post_immediate_completion ((get_op 6 True)\<lparr>op_value := Some 7\<rparr>) True,
       work_started],
      \<lparr>impl_open = True, impl_max_buffer_size = 0, impl_putters = [],
       impl_getters = [get_op 8 False], impl_buffer = []\<rparr>)"
    by (simp add: run_def construct_def base_implementation_def async_put_def
        async_get_def front_def pop_def push_def put_op_def get_op_def get_value_def
        set_value_def)
  have q: "impl_putters (snd (run ([], construct 0) ?cs)) = []
      \<or> impl_getters (snd (run ([], construct 0) ?cs)) = []"
    using never_both_waiting [where io = "[]" and n = 0 and cs = ?cs, THEN conjunct1] .
  have p: "async_put ([], ?getter) 7 9 False =
     ([post_deferred_completion ((get_op 8 False)\<lparr>op_value := Some 7\<rparr>),
       post_immediate_completion (put_op 7 9 False) False],
      \<lparr>impl_open = True, impl_max_buffer_size = 0, impl_putters = [],
       impl_getters = [], impl_buffer = []\<rparr>)"
    using never_both_waiting [where impl = ?getter and g = "get_op 8 False" and gs = "[]"
        and io' = "[]" and v = 7 and h = 9 and c = False, THEN conjunct2, THEN conjunct1]
    by simp
  have g: "async_get ([], ?putter) 9 False =
     ([post_deferred_completion (put_op 7 5 False),
       post_immediate_completion ((get_op 9 False)\<lparr>op_value := Some 7\<rparr>) False],
      \<lparr>impl_open = True, impl_max_buffer_size = 0, impl_putters = [],
       impl_getters = [], impl_buffer = []\<rparr>)"
    using never_both_waiting [where impl = ?putter and p = "put_op 7 5 False" and ps = "[]"
        and w = 7 and io' = "[]" and h = 9 and c = False,
        THEN conjunct2, THEN conjunct2, THEN conjunct2]
    by (simp add: put_op_def)
  from r q p g show ?thesis by - (intro conjI; simp)
qed

section \<open>Every operation is resolved once\<close>

lemma dispatched_immediate_map:
  "dispatched (map (\<lambda>op. post_immediate_completion (f op) (g op)) q) = map f q"
  by (induction q) (simp_all add: dispatched_def)

lemma submitted_Cons:
  "mset (submitted (c # cs)) = mset (submitted [c]) + mset (submitted cs)"
  by (cases c) simp_all

text \<open>
  Each call keeps the books: the handlers handed to the executor plus the handlers
  waiting grow by exactly the handler the call submits.
\<close>

lemma apply_call_conserves:
  "mset (map op_handler (dispatched (fst (apply_call s c)))) +
     mset (map op_handler (queued (snd (apply_call s c)))) =
   mset (map op_handler (dispatched (fst s))) + mset (map op_handler (queued (snd s))) +
     mset (submitted [c])"
proof (cases s)
  case (Pair io impl)
  show ?thesis
  proof (cases c)
    case (Put v h k)
    with Pair show ?thesis
      by (auto simp: async_put_def put_op_def front_def pop_def push_def set_value_def
          dispatched_def queued_def split: list.splits)
  next
    case (Get h k)
    with Pair show ?thesis
      by (auto simp: async_get_def get_op_def front_def pop_def push_def set_value_def
          dispatched_def queued_def split: list.splits)
  next
    case Close
    with Pair show ?thesis
      by (simp add: resolve_all_map dispatched_append dispatched_immediate_map queued_def
          comp_def)
  next
    case Cancel
    with Pair show ?thesis
      by (simp add: resolve_all_map dispatched_append dispatched_immediate_map queued_def
          comp_def)
  qed
qed

lemma run_conserves:
  "mset (map op_handler (dispatched (fst (run s cs)))) +
     mset (map op_handler (queued (snd (run s cs)))) =
   mset (map op_handler (dispatched (fst s))) + mset (map op_handler (queued (snd s))) +
     mset (submitted cs)"
proof (induction cs arbitrary: s)
  case Nil
  show ?case by (simp add: run_Nil)
next
  case (Cons c cs)
  show ?case
    unfolding run_Cons Cons.IH [of "apply_call s c"] apply_call_conserves [of s c]
      submitted_Cons [of c cs]
    by (simp add: ac_simps)
qed

text \<open>
  \<open>work_started\<close> is called once by a call that adds an operation to a wait queue, and
  by no other call.
\<close>

lemma apply_call_work_started:
  "length (filter (\<lambda>e. e = work_started) (fst (apply_call s c))) =
     length (filter (\<lambda>e. e = work_started) (fst s)) +
       (length (queued (snd (apply_call s c))) - length (queued (snd s)))"
proof (cases s)
  case (Pair io impl)
  show ?thesis
  proof (cases c)
    case (Put v h k)
    with Pair show ?thesis
      by (auto simp: async_put_def front_def pop_def push_def queued_def
          split: list.splits)
  next
    case (Get h k)
    with Pair show ?thesis
      by (auto simp: async_get_def front_def pop_def push_def queued_def
          split: list.splits)
  next
    case Close
    with Pair show ?thesis
      by (simp add: resolve_all_map queued_def)
  next
    case Cancel
    with Pair show ?thesis
      by (simp add: resolve_all_map queued_def)
  qed
qed

text \<open>
  What \<open>destroy\<close> hands to the executor: everything handed over before, and every
  operation that was still waiting.
\<close>

lemma destroy_dispatches_queued:
  "mset (map op_handler (dispatched (fst (destroy (io, impl))))) =
     mset (map op_handler (dispatched io)) + mset (map op_handler (queued impl))"
  by (simp add: destroy_def resolve_all_map dispatched_append dispatched_immediate_map
      queued_def comp_def)

lemma destroy_empties: "queued (snd (destroy (io, impl))) = []"
  by (simp add: destroy_def queued_def)

text \<open>
  Claim C8. Take a channel that was constructed and then driven by any sequence of
  puts, gets, closes and cancels, each put and get submitting an operation. The
  operations handed to the executor and the operations waiting in the channel are
  together exactly the operations submitted, each as often as it was submitted. So when
  every submission is a new operation, no operation is handed over twice, none is both
  waiting and handed over, none waits twice, and none is lost. \<open>destroy\<close> then leaves
  nothing waiting, and every submitted operation has been handed to the executor
  exactly once. In any state, a call makes one \<open>work_started\<close> call exactly when
  it parks an operation, and none otherwise.
\<close>

theorem resolved_exactly_once:
  assumes "run ([], construct n) cs = (io, impl)"
  shows "mset (map op_handler (dispatched io @ queued impl)) = mset (submitted cs)
       \<and> (distinct (submitted cs) \<longrightarrow>
            distinct (map op_handler (dispatched io @ queued impl))
            \<and> set (map op_handler (dispatched io @ queued impl)) = set (submitted cs)
            \<and> distinct (map op_handler (dispatched (fst (destroy (io, impl)))))
            \<and> set (map op_handler (dispatched (fst (destroy (io, impl))))) =
                set (submitted cs))
       \<and> queued (snd (destroy (io, impl))) = []
       \<and> mset (map op_handler (dispatched (fst (destroy (io, impl))))) =
           mset (submitted cs)
       \<and> length (filter (\<lambda>e. e = work_started) (fst (apply_call s c))) =
           length (filter (\<lambda>e. e = work_started) (fst s)) +
             (length (queued (snd (apply_call s c))) - length (queued (snd s)))"
proof -
  have m: "mset (map op_handler (dispatched io @ queued impl)) = mset (submitted cs)"
    using run_conserves [of "([], construct n)" cs] assms
    by (simp add: construct_def base_implementation_def dispatched_def queued_def)
  have d: "mset (map op_handler (dispatched (fst (destroy (io, impl))))) =
      mset (submitted cs)"
    using m destroy_dispatches_queued [of io impl] by simp
  have "distinct (map op_handler (dispatched io @ queued impl))"
    and "set (map op_handler (dispatched io @ queued impl)) = set (submitted cs)"
    and "distinct (map op_handler (dispatched (fst (destroy (io, impl)))))"
    and "set (map op_handler (dispatched (fst (destroy (io, impl))))) = set (submitted cs)"
    if "distinct (submitted cs)"
    using that mset_eq_imp_distinct_iff [OF m] mset_eq_setD [OF m]
      mset_eq_imp_distinct_iff [OF d] mset_eq_setD [OF d]
    by blast+
  with m d destroy_empties [of io impl] apply_call_work_started [of s c]
  show ?thesis by blast
qed

text \<open>
  The rendezvous channel again: the put 5 waits and is woken by the get 6, the get 8
  waits until \<open>destroy\<close> aborts it. Each of 5, 6 and 8 is handed to the executor once.
\<close>

theorem resolved_exactly_once_witness:
  "run ([], construct 0) [Put (7::nat) (5::nat) False, Get 6 True, Get 8 False] =
     ([work_started, post_deferred_completion (put_op 7 5 False),
       post_immediate_completion ((get_op 6 True)\<lparr>op_value := Some 7\<rparr>) True,
       work_started],
      \<lparr>impl_open = True, impl_max_buffer_size = 0, impl_putters = [],
       impl_getters = [get_op 8 False], impl_buffer = []\<rparr>)
   \<and> distinct (submitted [Put (7::nat) (5::nat) False, Get 6 True, Get 8 False])
   \<and> set (map op_handler (dispatched (fst (destroy
         ([work_started, post_deferred_completion (put_op (7::nat) (5::nat) False),
           post_immediate_completion ((get_op 6 True)\<lparr>op_value := Some 7\<rparr>) True,
           work_started],
          \<lparr>impl_open = True, impl_max_buffer_size = 0, impl_putters = [],
           impl_getters = [get_op 8 False], impl_buffer = []\<rparr>))))) = {5, 6, 8}
   \<and> distinct (map op_handler (dispatched (fst (destroy
         ([work_started, post_deferred_completion (put_op (7::nat) (5::nat) False),
           post_immediate_completion ((get_op 6 True)\<lparr>op_value := Some 7\<rparr>) True,
           work_started],
          \<lparr>impl_open = True, impl_max_buffer_size = 0, impl_putters = [],
           impl_getters = [get_op 8 False], impl_buffer = []\<rparr>)))))"
proof -
  let ?cs = "[Put (7::nat) (5::nat) False, Get 6 True, Get 8 False]"
  let ?io = "[work_started, post_deferred_completion (put_op (7::nat) (5::nat) False),
       post_immediate_completion ((get_op 6 True)\<lparr>op_value := Some 7\<rparr>) True,
       work_started]"
  let ?impl = "\<lparr>impl_open = True, impl_max_buffer_size = 0, impl_putters = [],
       impl_getters = [get_op (8::nat) False], impl_buffer = ([]::nat list)\<rparr>"
  have r: "run ([], construct 0) ?cs = (?io, ?impl)"
    by (simp add: run_def construct_def base_implementation_def async_put_def
        async_get_def front_def pop_def push_def put_op_def get_op_def get_value_def
        set_value_def)
  have dist: "distinct (submitted ?cs)"
    by simp
  note t = resolved_exactly_once [OF r, where s = "([], construct 0)" and c = Close]
  from t dist have "set (map op_handler (dispatched (fst (destroy (?io, ?impl))))) =
      set (submitted ?cs)"
    and d: "distinct (map op_handler (dispatched (fst (destroy (?io, ?impl)))))"
    by blast+
  then have "set (map op_handler (dispatched (fst (destroy (?io, ?impl))))) = {5, 6, 8}"
    by simp
  with r dist d show ?thesis by - (intro conjI; assumption)
qed

end
